theory Spec2Isabelle
  imports Main "HOL-Library.Sublist"
begin

section \<open>The article view: route parameters to content path\<close>

text \<open>
  The view class of \<^verbatim>\<open>src/app/articles/articles.component.ts\<close>:
  \<^verbatim>\<open>
  export class ArticlesComponent {
    filePath = '';
    params = inject(ActivatedRoute).params;

    constructor() {
      this.params.subscribe((params) => {
        this.filePath = `assets/markdown/${params['title']}.md`;
      });
    }
  }
  \<close>
  A string is a list of characters; the code only concatenates strings, so nothing below
  depends on what a character is.
\<close>

subsection \<open>Values, property reads and string conversion\<close>

text \<open>
  The route parameters are an object from parameter names to strings. Reading a property
  that the object does not have gives \<^verbatim>\<open>undefined\<close>, so a property read has one of
  two shapes.
\<close>

datatype jsval = JSUndefined | JSString string

type_synonym Params = "string \<rightharpoonup> string"

definition prop_get :: "Params \<Rightarrow> string \<Rightarrow> jsval" where
  \<comment> \<open>\<^verbatim>\<open>params[k]\<close>\<close>
  "prop_get ps k = (case ps k of None \<Rightarrow> JSUndefined | Some s \<Rightarrow> JSString s)"

fun ToString :: "jsval \<Rightarrow> string" where
  \<comment> \<open>the conversion a template literal applies to a substitution\<close>
  "ToString JSUndefined = ''undefined''"
| "ToString (JSString s) = s"

subsection \<open>The component\<close>

text \<open>
  The two fields of the class. The \<^verbatim>\<open>params\<close> field holds a reference to the router's
  parameter stream; the component never looks inside it, so its type is a parameter.
\<close>

record 'obs ArticlesComponent =
  filePath :: string
  params :: 'obs

definition ArticlesComponent_new :: "'obs \<Rightarrow> 'obs ArticlesComponent" where
  \<comment> \<open>the field initialisers; the argument is what \<^verbatim>\<open>inject(ActivatedRoute).params\<close> returns\<close>
  "ArticlesComponent_new obs = \<lparr>filePath = '''', params = obs\<rparr>"

definition on_params :: "'obs ArticlesComponent \<Rightarrow> Params \<Rightarrow> 'obs ArticlesComponent" where
  \<comment> \<open>the callback given to \<^verbatim>\<open>subscribe\<close>, run once for each emission of the stream\<close>
  "on_params this ps =
     this\<lparr>filePath := ''assets/markdown/'' @ ToString (prop_get ps ''title'') @ ''.md''\<rparr>"

definition deliver :: "'obs ArticlesComponent \<Rightarrow> Params list \<Rightarrow> 'obs ArticlesComponent" where
  \<comment> \<open>the stream hands its emissions to the callback one after the other\<close>
  "deliver this es = foldl on_params this es"

definition run :: "'obs \<Rightarrow> Params list \<Rightarrow> 'obs ArticlesComponent" where
  \<comment> \<open>the component after construction and the emissions \<open>es\<close>, oldest first\<close>
  "run obs es = deliver (ArticlesComponent_new obs) es"

text \<open>The states the component can be in: the constructed one, and any state an emission leads to.\<close>

inductive reachable :: "'obs \<Rightarrow> 'obs ArticlesComponent \<Rightarrow> bool" for obs :: 'obs where
  constructed: "reachable obs (ArticlesComponent_new obs)"
| emission: "reachable obs this \<Longrightarrow> reachable obs (on_params this ps)"

subsection \<open>The two logical states of the view\<close>

datatype phase = NoContentPath | PathSet

definition phase_of :: "'obs ArticlesComponent \<Rightarrow> phase" where
  "phase_of this = (if filePath this = '''' then NoContentPath else PathSet)"

definition well_formed_path :: "string \<Rightarrow> bool" where
  "well_formed_path p \<longleftrightarrow> p = '''' \<or> (prefix ''assets/markdown/'' p \<and> suffix ''.md'' p)"

section \<open>Basic facts\<close>

lemma prop_get_present: "ps k = Some s \<Longrightarrow> prop_get ps k = JSString s"
  by (simp add: prop_get_def)

lemma prop_get_absent: "ps k = None \<Longrightarrow> prop_get ps k = JSUndefined"
  by (simp add: prop_get_def)

lemma filePath_on_params:
  "filePath (on_params this ps) = ''assets/markdown/'' @ ToString (prop_get ps ''title'') @ ''.md''"
  by (simp add: on_params_def)

lemma params_on_params: "params (on_params this ps) = params this"
  by (simp add: on_params_def)

lemma deliver_Nil: "deliver this [] = this"
  by (simp add: deliver_def)

lemma deliver_snoc: "deliver this (es @ [ps]) = on_params (deliver this es) ps"
  by (simp add: deliver_def)

lemma deliver_last:
  assumes "es \<noteq> []"
  shows "deliver this es = on_params (deliver this (butlast es)) (last es)"
proof -
  from assms have "es = butlast es @ [last es]" by simp
  then have "deliver this es = deliver this (butlast es @ [last es])" by simp
  then show ?thesis by (simp only: deliver_snoc)
qed

lemma filePath_nonempty: "filePath (on_params this ps) \<noteq> ''''"
  by (simp add: filePath_on_params)

section \<open>Path construction\<close>

text \<open>
  Claim C1. When an emission of the parameter stream carries a title \<open>t\<close>, the component
  sets its content path to \<^verbatim>\<open>assets/markdown/\<close> followed by \<open>t\<close> followed by
  \<^verbatim>\<open>.md\<close>: the title goes in as it is, for every string \<open>t\<close>.
\<close>

theorem path_of_title:
  "ps ''title'' = Some t \<Longrightarrow>
   filePath (on_params this ps) = ''assets/markdown/'' @ t @ ''.md''"
  by (simp add: filePath_on_params prop_get_present)

theorem path_of_title_witness:
  "[''title'' \<mapsto> ''oop-paradigm''] ''title'' = Some ''oop-paradigm'' \<and>
   filePath (on_params (ArticlesComponent_new ()) [''title'' \<mapsto> ''oop-paradigm''])
     = ''assets/markdown/oop-paradigm.md''"
  using path_of_title [of "[''title'' \<mapsto> ''oop-paradigm'']" "''oop-paradigm''"
      "ArticlesComponent_new ()"]
  by simp


text \<open>
  Claim C3. When an emission has no \<^verbatim>\<open>title\<close> key, the property read gives
  \<^verbatim>\<open>undefined\<close>, the template literal writes it out as the word
  \<^verbatim>\<open>undefined\<close>, and the content path is \<^verbatim>\<open>assets/markdown/undefined.md\<close>.
\<close>

theorem path_without_title:
  "ps ''title'' = None \<Longrightarrow>
   filePath (on_params this ps) = ''assets/markdown/undefined.md''"
  by (simp add: filePath_on_params prop_get_absent)

theorem path_without_title_witness:
  "[''id'' \<mapsto> ''7''] ''title'' = None \<and>
   filePath (on_params (ArticlesComponent_new ()) [''id'' \<mapsto> ''7''])
     = ''assets/markdown/undefined.md''"
  using path_without_title [of "[''id'' \<mapsto> ''7'']" "ArticlesComponent_new ()"]
  by simp

text \<open>
  Claim C9. The path construction is injective in the title: two emissions that carry the
  titles \<open>a\<close> and \<open>b\<close> lead to the same content path only if \<open>a = b\<close>, whatever
  the component states they arrive in; distinct titles give distinct paths.
\<close>

theorem path_injective:
  assumes "ps ''title'' = Some a" and "ps' ''title'' = Some b"
  shows "filePath (on_params this ps) = filePath (on_params this' ps') \<longleftrightarrow> a = b"
proof
  assume "filePath (on_params this ps) = filePath (on_params this' ps')"
  with assms have "''assets/markdown/'' @ a @ ''.md'' = ''assets/markdown/'' @ b @ ''.md''"
    by (simp add: filePath_on_params prop_get_present)
  then have "a @ ''.md'' = b @ ''.md''"
    by (simp only: same_append_eq)
  then show "a = b"
    by (simp only: append_same_eq)
next
  assume "a = b"
  with assms show "filePath (on_params this ps) = filePath (on_params this' ps')"
    by (simp add: filePath_on_params prop_get_present)
qed

theorem path_injective_witness:
  "[''title'' \<mapsto> ''oop-paradigm''] ''title'' = Some ''oop-paradigm'' \<and>
   [''title'' \<mapsto> ''dotnet-backend''] ''title'' = Some ''dotnet-backend'' \<and>
   filePath (on_params (ArticlesComponent_new ()) [''title'' \<mapsto> ''oop-paradigm''])
     \<noteq> filePath (on_params (ArticlesComponent_new ()) [''title'' \<mapsto> ''dotnet-backend''])"
  using path_injective [of "[''title'' \<mapsto> ''oop-paradigm'']" "''oop-paradigm''"
      "[''title'' \<mapsto> ''dotnet-backend'']" "''dotnet-backend''"
      "ArticlesComponent_new ()" "ArticlesComponent_new ()"]
  by simp

section \<open>What an update reads and what it writes\<close>

text \<open>
  Claim C5. Of the route parameters only the \<^verbatim>\<open>title\<close> key reaches the content path:
  two parameter objects that agree on \<^verbatim>\<open>title\<close>, and differ in any way on all other
  keys, give the same content path.
\<close>

theorem only_title_is_read:
  "ps ''title'' = ps' ''title'' \<Longrightarrow>
   filePath (on_params this ps) = filePath (on_params this ps')"
  by (simp add: filePath_on_params prop_get_def)

theorem only_title_is_read_witness:
  "[''title'' \<mapsto> ''oop-paradigm'', ''id'' \<mapsto> ''7''] ''title''
     = [''lang'' \<mapsto> ''en'', ''title'' \<mapsto> ''oop-paradigm''] ''title'' \<and>
   filePath (on_params (ArticlesComponent_new ()) [''title'' \<mapsto> ''oop-paradigm'', ''id'' \<mapsto> ''7''])
     = filePath (on_params (ArticlesComponent_new ()) [''lang'' \<mapsto> ''en'', ''title'' \<mapsto> ''oop-paradigm''])"
proof -
  have agree: "[''title'' \<mapsto> ''oop-paradigm'', ''id'' \<mapsto> ''7''] ''title''
     = [''lang'' \<mapsto> ''en'', ''title'' \<mapsto> ''oop-paradigm''] ''title''"
    by simp
  from agree only_title_is_read [of "[''title'' \<mapsto> ''oop-paradigm'', ''id'' \<mapsto> ''7'']"
      "[''lang'' \<mapsto> ''en'', ''title'' \<mapsto> ''oop-paradigm'']" "ArticlesComponent_new ()", OF agree]
  show ?thesis
    by (rule conjI)
qed

text \<open>
  Claim C7. An emission changes the content path field and nothing else: the
  \<^verbatim>\<open>params\<close> field keeps its value, and putting the old content path back gives the
  old component state, so no other part of the state has moved. After any number of
  emissions the \<^verbatim>\<open>params\<close> field still holds the stream it was constructed with.
\<close>

theorem only_filePath_is_written:
  "params (on_params this ps) = params this \<and>
   (on_params this ps)\<lparr>filePath := filePath this\<rparr> = this \<and>
   params (run obs es) = obs"
proof -
  have "params (deliver c es) = params c" for c :: "'b ArticlesComponent"
    by (induction es arbitrary: c) (simp_all add: deliver_def params_on_params)
  then have "params (run obs es) = obs"
    by (simp add: run_def ArticlesComponent_new_def)
  then show ?thesis
    by (simp add: on_params_def)
qed


section \<open>Sequences of navigations\<close>

lemma reachable_deliver: "reachable obs this \<Longrightarrow> reachable obs (deliver this es)"
proof (induction es rule: rev_induct)
  case Nil
  then show ?case by (simp add: deliver_Nil)
next
  case (snoc ps es)
  then show ?case by (simp add: deliver_snoc reachable.emission)
qed

lemma reachable_run: "reachable obs (run obs es)"
  unfolding run_def by (rule reachable_deliver) (rule reachable.constructed)

lemma reachable_is_run: "reachable obs this \<Longrightarrow> \<exists>es. this = run obs es"
proof (induction rule: reachable.induct)
  case constructed
  have "ArticlesComponent_new obs = run obs []"
    by (simp add: run_def deliver_Nil)
  then show ?case ..
next
  case (emission this ps)
  from emission.IH obtain es where "this = run obs es" ..
  then have "on_params this ps = run obs (es @ [ps])"
    by (simp add: run_def deliver_snoc)
  then show ?case ..
qed

lemma well_formed_on_params: "well_formed_path (filePath (on_params this ps))"
proof -
  let ?t = "ToString (prop_get ps ''title'')"
  have "filePath (on_params this ps) = ''assets/markdown/'' @ (?t @ ''.md'')"
    by (simp only: filePath_on_params)
  then have head_ok: "prefix ''assets/markdown/'' (filePath (on_params this ps))"
    by (rule prefixI)
  have "filePath (on_params this ps) = (''assets/markdown/'' @ ?t) @ ''.md''"
    by (simp only: filePath_on_params append_assoc)
  then have tail_ok: "suffix ''.md'' (filePath (on_params this ps))"
    by (rule suffixI)
  from head_ok tail_ok show ?thesis
    by (simp only: well_formed_path_def simp_thms)
qed

text \<open>
  Claim C4. An update overwrites the content path: the component state an emission arrives
  in has no influence on the path it leaves behind, which is fixed by that emission's
  title alone. So after any non-empty sequence of emissions the content path is the one
  that the last emission alone gives, in whatever state that emission is handled.
\<close>

theorem last_navigation_wins:
  "(ps ''title'' = ps' ''title'' \<longrightarrow>
      filePath (on_params this ps) = filePath (on_params this' ps')) \<and>
   (es \<noteq> [] \<longrightarrow>
      filePath (deliver this es) = filePath (on_params this' (last es)))"
proof (intro conjI impI)
  assume "ps ''title'' = ps' ''title''"
  then show "filePath (on_params this ps) = filePath (on_params this' ps')"
    by (simp add: filePath_on_params prop_get_def)
next
  assume "es \<noteq> []"
  then have "deliver this es = on_params (deliver this (butlast es)) (last es)"
    by (rule deliver_last)
  then show "filePath (deliver this es) = filePath (on_params this' (last es))"
    by (simp only: filePath_on_params)
qed

theorem last_navigation_wins_witness:
  "[''title'' \<mapsto> ''dotnet-backend''] ''title'' = [''title'' \<mapsto> ''dotnet-backend''] ''title'' \<and>
   [[''title'' \<mapsto> ''oop-paradigm''], [''title'' \<mapsto> ''dotnet-backend'']] \<noteq> [] \<and>
   filePath (on_params (ArticlesComponent_new ()) [''title'' \<mapsto> ''dotnet-backend''])
     = filePath (on_params \<lparr>filePath = ''assets/markdown/oop-paradigm.md'', params = ()\<rparr>
                  [''title'' \<mapsto> ''dotnet-backend'']) \<and>
   filePath (deliver (ArticlesComponent_new ())
               [[''title'' \<mapsto> ''oop-paradigm''], [''title'' \<mapsto> ''dotnet-backend'']])
     = ''assets/markdown/dotnet-backend.md''"
proof -
  let ?A = "[''title'' \<mapsto> ''oop-paradigm'']" and ?B = "[''title'' \<mapsto> ''dotnet-backend'']"
  let ?stale = "\<lparr>filePath = ''assets/markdown/oop-paradigm.md'', params = ()\<rparr>"
  note wins = last_navigation_wins [of ?B ?B "ArticlesComponent_new ()" ?stale "[?A, ?B]"]
  have nonempty: "[?A, ?B] \<noteq> []" by simp
  from wins have same: "filePath (on_params (ArticlesComponent_new ()) ?B)
      = filePath (on_params ?stale ?B)"
    by blast
  from wins nonempty have "filePath (deliver (ArticlesComponent_new ()) [?A, ?B])
      = filePath (on_params ?stale (last [?A, ?B]))"
    by blast
  then have final: "filePath (deliver (ArticlesComponent_new ()) [?A, ?B])
      = ''assets/markdown/dotnet-backend.md''"
    by (simp add: filePath_on_params prop_get_def)
  from nonempty same final show ?thesis by blast
qed

text \<open>
  Claim C6. The view has two logical states. A freshly constructed component, before any
  emission, has the empty content path. After one or more emissions the content path is
  not empty. No state is final: however many emissions the component has handled, the
  next one is handled by the same callback in the state they left, so the component after
  the emissions \<open>es\<close> and then \<open>ps\<close> is the callback applied to the component after
  \<open>es\<close>; it has a content path again, and that path is the one of \<open>ps\<close>.
\<close>

theorem two_phases_no_terminal:
  "filePath (run obs []) = '''' \<and> phase_of (run obs []) = NoContentPath \<and>
   (es \<noteq> [] \<longrightarrow> filePath (run obs es) \<noteq> '''' \<and> phase_of (run obs es) = PathSet) \<and>
   run obs (es @ [ps]) = on_params (run obs es) ps \<and>
   phase_of (run obs (es @ [ps])) = PathSet \<and>
   filePath (run obs (es @ [ps]))
     = ''assets/markdown/'' @ ToString (prop_get ps ''title'') @ ''.md''"
proof -
  have initial: "filePath (run obs []) = ''''"
    by (simp add: run_def deliver_Nil ArticlesComponent_new_def)
  then have initial_phase: "phase_of (run obs []) = NoContentPath"
    by (simp add: phase_of_def)
  have later: "filePath (run obs es) \<noteq> '''' \<and> phase_of (run obs es) = PathSet" if "es \<noteq> []"
  proof -
    from that have "run obs es = on_params (deliver (ArticlesComponent_new obs) (butlast es)) (last es)"
      unfolding run_def by (rule deliver_last)
    then show ?thesis
      by (simp add: phase_of_def filePath_nonempty)
  qed
  have next_one: "run obs (es @ [ps]) = on_params (run obs es) ps"
    by (simp only: run_def deliver_snoc)
  then have next_path: "filePath (run obs (es @ [ps]))
      = ''assets/markdown/'' @ ToString (prop_get ps ''title'') @ ''.md''"
    by (simp only: filePath_on_params)
  from next_one have next_phase: "phase_of (run obs (es @ [ps])) = PathSet"
    by (simp add: phase_of_def filePath_nonempty)
  from initial initial_phase later next_one next_path next_phase show ?thesis
    by blast
qed

theorem two_phases_no_terminal_witness:
  "[[''title'' \<mapsto> ''oop-paradigm'']] \<noteq> [] \<and>
   phase_of (run () []) = NoContentPath \<and>
   phase_of (run () [[''title'' \<mapsto> ''oop-paradigm'']]) = PathSet \<and>
   phase_of (run () [[''title'' \<mapsto> ''oop-paradigm''], [''title'' \<mapsto> ''dotnet-backend'']]) = PathSet \<and>
   filePath (run () [[''title'' \<mapsto> ''oop-paradigm''], [''title'' \<mapsto> ''dotnet-backend'']])
     = ''assets/markdown/dotnet-backend.md''"
proof -
  let ?A = "[''title'' \<mapsto> ''oop-paradigm'']" and ?B = "[''title'' \<mapsto> ''dotnet-backend'']"
  note two = two_phases_no_terminal [of "()" "[?A]" ?B]
  have nonempty: "[?A] \<noteq> []" by simp
  from two have p0: "phase_of (run () []) = NoContentPath" by blast
  from two nonempty have p1: "phase_of (run () [?A]) = PathSet" by blast
  from two have "phase_of (run () ([?A] @ [?B])) = PathSet" by blast
  then have p2: "phase_of (run () [?A, ?B]) = PathSet" by simp
  from two have "filePath (run () ([?A] @ [?B]))
      = ''assets/markdown/'' @ ToString (prop_get ?B ''title'') @ ''.md''"
    by blast
  then have p3: "filePath (run () [?A, ?B]) = ''assets/markdown/dotnet-backend.md''"
    by (simp add: prop_get_def)
  from nonempty p0 p1 p2 p3 show ?thesis by blast
qed

text \<open>
  Claim C10. In every reachable component state the content path is either the empty
  string or a string that starts with \<^verbatim>\<open>assets/markdown/\<close> and ends with
  \<^verbatim>\<open>.md\<close>: this holds after construction and any sequence of emissions, and an
  emission handled in a state with this property leads to a state with this property.
\<close>

theorem content_path_invariant:
  "well_formed_path (filePath (run obs es)) \<and>
   (reachable obs this \<longrightarrow> well_formed_path (filePath this)) \<and>
   (well_formed_path (filePath this') \<longrightarrow> well_formed_path (filePath (on_params this' ps)))"
proof -
  have inv: "well_formed_path (filePath c)" if "reachable obs c" for c
    using that
  proof (induction rule: reachable.induct)
    case constructed
    show ?case by (simp add: ArticlesComponent_new_def well_formed_path_def)
  next
    case (emission c ps)
    show ?case by (rule well_formed_on_params)
  qed
  have "well_formed_path (filePath (run obs es))"
    by (rule inv) (rule reachable_run)
  moreover have "well_formed_path (filePath (on_params this' ps))"
    by (rule well_formed_on_params)
  ultimately show ?thesis
    using inv by blast
qed

theorem content_path_invariant_witness:
  "reachable () (on_params (ArticlesComponent_new ()) [''title'' \<mapsto> ''oop-paradigm'']) \<and>
   well_formed_path (filePath (ArticlesComponent_new ())) \<and>
   well_formed_path (filePath (on_params (ArticlesComponent_new ()) [''title'' \<mapsto> ''oop-paradigm''])) \<and>
   filePath (on_params (ArticlesComponent_new ()) [''title'' \<mapsto> ''oop-paradigm''])
     = ''assets/markdown/oop-paradigm.md''"
proof -
  let ?A = "[''title'' \<mapsto> ''oop-paradigm'']"
  note inv = content_path_invariant [of "()" "[?A]" "on_params (ArticlesComponent_new ()) ?A"
      "ArticlesComponent_new ()" ?A]
  have reach: "reachable () (on_params (ArticlesComponent_new ()) ?A)"
    by (intro reachable.intros)
  have start: "well_formed_path (filePath (ArticlesComponent_new ()))"
    by (simp add: ArticlesComponent_new_def well_formed_path_def)
  from inv reach have after: "well_formed_path (filePath (on_params (ArticlesComponent_new ()) ?A))"
    by blast
  have path: "filePath (on_params (ArticlesComponent_new ()) ?A) = ''assets/markdown/oop-paradigm.md''"
    by (simp add: filePath_on_params prop_get_def)
  from reach start after path show ?thesis by blast
qed

end
